theory Spec2Isabelle
  imports Main "HOL-Library.Word" "HOL-Library.AList"
begin

section \<open>Exceptions\<close>

text \<open>
  Every exception that \<^verbatim>\<open>update_local_repo.py\<close> can raise is a value of \<open>exn\<close>; a
  function that may raise returns \<open>exn + 'a\<close> with \<open>Inl\<close> for the exception.
  \<open>IOError\<close> stands for the whole \<^verbatim>\<open>OSError\<close> family (missing file, directory in the
  way, invalid seek, socket time-out). The last four constructors are the plain
  \<^verbatim>\<open>Exception(...)\<close> values the script raises itself; their arguments are the values
  interpolated into the message.
\<close>

datatype exn =
    HTTPError nat
  | URLError
  | IOError
  | JSONDecodeError
  | AttributeError
  | TypeError
  | KeyError string
  | ValueError string
  | ZeroDivisionError
  | NoExpectedHash string "string list"
  | HashComputationFailed string
  | HashMismatch string string string
  | HashFetchFailed

section \<open>Strings and paths\<close>

text \<open>
  Strings are ASCII text. \<^verbatim>\<open>str.lower\<close> maps the letters A-Z to a-z and leaves every
  other character alone.
\<close>

definition lower_char :: "char \<Rightarrow> char" where
  "lower_char c =
     (case map_of (zip ''ABCDEFGHIJKLMNOPQRSTUVWXYZ'' ''abcdefghijklmnopqrstuvwxyz'') c of
        Some d \<Rightarrow> d
      | None \<Rightarrow> c)"

definition lower :: "string \<Rightarrow> string" where
  "lower s = map lower_char s"

definition endswith :: "string \<Rightarrow> string \<Rightarrow> bool" where
  "endswith s suffix = (length suffix \<le> length s \<and> drop (length s - length suffix) s = suffix)"

definition startswith :: "string \<Rightarrow> string \<Rightarrow> bool" where
  "startswith s prefix = (take (length prefix) s = prefix)"

text \<open>
  \<^verbatim>\<open>os.path.basename\<close> and \<^verbatim>\<open>os.path.dirname\<close> of \<^verbatim>\<open>posixpath\<close>: the path is cut after
  its last slash; the head loses its trailing slashes unless it consists of slashes only.
\<close>

definition basename :: "string \<Rightarrow> string" where
  "basename p = rev (takeWhile (\<lambda>c. c \<noteq> CHR ''/'') (rev p))"

definition dirname :: "string \<Rightarrow> string" where
  "dirname p =
     (let head = rev (dropWhile (\<lambda>c. c \<noteq> CHR ''/'') (rev p))
      in if head \<noteq> [] \<and> head \<noteq> replicate (length head) (CHR ''/'')
         then rev (dropWhile (\<lambda>c. c = CHR ''/'') (rev head))
         else head)"

section \<open>The world outside the script\<close>

type_synonym byte = "8 word"

text \<open>A parsed JSON document, as \<^verbatim>\<open>json.loads\<close> returns it.\<close>

datatype json =
    JNull
  | JBool bool
  | JNum int
  | JStr string
  | JArr "json list"
  | JObj "(string \<times> json) list"

text \<open>
  An HTTP response body is consumed by successive \<^verbatim>\<open>response.read(amt)\<close> calls. The body
  arrives as a sequence of segments; the connection may break between two segments, and
  then the next read raises. The end of the list is the end of the body.
\<close>

datatype read_event = Data "byte list" | ReadError exn

text \<open>The \<^verbatim>\<open>Content-Length\<close> header: absent, a decimal number, or text that is no number.\<close>

datatype header = Absent | Numeric int | Malformed

text \<open>
  \<^verbatim>\<open>urllib.request.urlopen\<close> either raises (\<^verbatim>\<open>HTTPError\<close> for an error status,
  \<^verbatim>\<open>URLError\<close> for a connection failure) or returns a response.
\<close>

datatype reply = Raises exn | Response header "read_event list"

text \<open>
  The world fixes what the network answers and what the hash library computes:
  \<open>urlopen url range\<close> is the reply to a GET of \<open>url\<close> with the given \<^verbatim>\<open>Range\<close> header
  (\<open>None\<close> when the request has none), \<open>api_json url\<close> the outcome of lines 19-20
  (open, read, decode and parse the release document), and \<open>hexdigest\<close> is
  \<^verbatim>\<open>hashlib.sha256(data).hexdigest()\<close>.
\<close>

record world =
  urlopen :: "string \<Rightarrow> (int \<times> int) option \<Rightarrow> reply"
  api_json :: "string \<Rightarrow> exn + json"
  hexdigest :: "byte list \<Rightarrow> string"

text \<open>
  What the script reports: the \<^verbatim>\<open>logging\<close> lines of \<^verbatim>\<open>download_chunk\<close>, the two
  \<^verbatim>\<open>print\<close> lines of \<^verbatim>\<open>download_file\<close>, and control reaching the placement step
  (line 162).
\<close>

datatype log_entry =
    CompletedRange int int
  | ErrorInRange int int exn
  | FileDownloaded string
  | HashVerified string string
  | PlacementStarted

text \<open>
  The state the script changes: regular files with their content, directories, and three
  traces: every GET issued by \<^verbatim>\<open>download_file\<close> and \<^verbatim>\<open>download_chunk\<close> (URL and
  \<^verbatim>\<open>Range\<close> header), every positioned write (path, offset, data), and the report lines.
\<close>

record state =
  files :: "string \<rightharpoonup> byte list"
  dirs :: "string set"
  requests :: "(string \<times> (int \<times> int) option) list"
  writes :: "(string \<times> int \<times> byte list) list"
  log :: "log_entry list"

section \<open>File operations\<close>

text \<open>
  \<^verbatim>\<open>os.makedirs(d, exist_ok=True)\<close> raises for the empty path and for a regular file in
  the way; otherwise \<open>d\<close> is a directory afterwards (the library creates missing ancestors
  on the way; the script only ever looks at \<open>d\<close> itself).
\<close>

definition makedirs :: "string \<Rightarrow> state \<Rightarrow> exn + state" where
  "makedirs d s =
     (if d = [] \<or> files s d \<noteq> None then Inl IOError
      else Inr (s\<lparr>dirs := insert d (dirs s)\<rparr>))"

text \<open>
  \<^verbatim>\<open>open(path, 'wb')\<close> followed by \<^verbatim>\<open>file.truncate(n)\<close> (lines 101-102). Opening
  raises when the path names no file (it is empty or ends in a slash), names a
  directory, or lies in a directory that does not exist; it leaves an empty file.
  Truncating to a negative size raises; otherwise the file is \<open>n\<close> zero bytes.
\<close>

definition open_wb :: "string \<Rightarrow> state \<Rightarrow> exn + state" where
  "open_wb path s =
     (if basename path = [] \<or> path \<in> dirs s
         \<or> (dirname path \<noteq> [] \<and> dirname path \<notin> dirs s) then Inl IOError
      else Inr (s\<lparr>files := (files s)(path \<mapsto> [])\<rparr>))"

definition truncate :: "string \<Rightarrow> int \<Rightarrow> state \<Rightarrow> exn + state" where
  "truncate path n s =
     (if n < 0 then Inl IOError
      else Inr (s\<lparr>files := (files s)(path \<mapsto> replicate (nat n) 0)\<rparr>))"

text \<open>
  Lines 78-80: \<^verbatim>\<open>open(save_path, 'r+b')\<close>, \<^verbatim>\<open>file.seek(offset)\<close>, \<^verbatim>\<open>file.write(chunk)\<close>.
  Opening raises when the file does not exist, seeking raises for a negative offset.
  Writing beyond the end first fills the gap with zero bytes; writing inside the file
  overwrites and keeps what follows.
\<close>

definition write_at :: "string \<Rightarrow> int \<Rightarrow> byte list \<Rightarrow> state \<Rightarrow> exn + state" where
  "write_at path offset chunk s =
     (case files s path of
        None \<Rightarrow> Inl IOError
      | Some content \<Rightarrow>
          if offset < 0 then Inl IOError
          else
            let off = nat offset;
                padded = content @ replicate (off - length content) 0
            in Inr (s\<lparr>files := (files s)(path \<mapsto>
                          take off padded @ chunk @ drop (off + length chunk) content),
                      writes := writes s @ [(path, offset, chunk)]\<rparr>))"

section \<open>\<^verbatim>\<open>get_expected_hashes_from_api\<close> (lines 15-48)\<close>

text \<open>
  \<^verbatim>\<open>obj.get(key, default)\<close> exists on dictionaries only; \<^verbatim>\<open>for x in obj\<close> walks a list,
  the characters of a string or the keys of a dictionary and raises for anything else;
  \<^verbatim>\<open>obj[key]\<close> with a string key raises \<^verbatim>\<open>KeyError\<close> on a dictionary without the key.
\<close>

fun dict_get :: "json \<Rightarrow> string \<Rightarrow> json \<Rightarrow> exn + json" where
  "dict_get (JObj kvs) key dflt =
     Inr (case map_of kvs key of Some v \<Rightarrow> v | None \<Rightarrow> dflt)"
| "dict_get _ key dflt = Inl AttributeError"

fun iterate :: "json \<Rightarrow> exn + json list" where
  "iterate (JArr xs) = Inr xs"
| "iterate (JStr s) = Inr (map (\<lambda>c. JStr [c]) s)"
| "iterate (JObj kvs) = Inr (map (\<lambda>kv. JStr (fst kv)) kvs)"
| "iterate _ = Inl TypeError"

fun subscript :: "json \<Rightarrow> string \<Rightarrow> exn + json" where
  "subscript (JObj kvs) key =
     (case map_of kvs key of Some v \<Rightarrow> Inr v | None \<Rightarrow> Inl (KeyError key))"
| "subscript _ key = Inl TypeError"

text \<open>
  The loop of lines 23-32 over the assets, with the dictionary \<^verbatim>\<open>expected_hashes\<close> as an
  association list in insertion order: assigning to a key that is present replaces its
  value in place, as a Python \<^verbatim>\<open>dict\<close> does. \<^verbatim>\<open>endswith\<close> and \<^verbatim>\<open>startswith\<close> exist on
  strings only.
\<close>

fun collect_hashes :: "json list \<Rightarrow> (string \<times> string) list \<Rightarrow> exn + (string \<times> string) list" where
  "collect_hashes [] expected_hashes = Inr expected_hashes"
| "collect_hashes (asset # assets) expected_hashes =
     (case dict_get asset ''name'' (JStr []) of
        Inl e \<Rightarrow> Inl e
      | Inr (JStr filename) \<Rightarrow>
          if endswith filename ''.rpm'' then
            (case dict_get asset ''digest'' (JStr []) of
               Inl e \<Rightarrow> Inl e
             | Inr (JStr digest) \<Rightarrow>
                 if startswith digest ''sha256:''
                 then collect_hashes assets
                        (AList.update filename (lower (drop 7 digest)) expected_hashes)
                 else collect_hashes assets expected_hashes
             | Inr _ \<Rightarrow> Inl AttributeError)
          else collect_hashes assets expected_hashes
      | Inr _ \<Rightarrow> Inl AttributeError)"

text \<open>Line 36, \<^verbatim>\<open>[a['name'] for a in ...]\<close>, evaluated only when no hash was collected.\<close>

fun available_assets :: "json list \<Rightarrow> exn + json list" where
  "available_assets [] = Inr []"
| "available_assets (a # as) =
     (case subscript a ''name'' of
        Inl e \<Rightarrow> Inl e
      | Inr n \<Rightarrow> (case available_assets as of Inl e \<Rightarrow> Inl e | Inr ns \<Rightarrow> Inr (n # ns)))"

definition api_url :: "string \<Rightarrow> string \<Rightarrow> string \<Rightarrow> string" where
  "api_url repo_owner repo_name release_tag =
     ''https://api.github.com/repos/'' @ repo_owner @ ''/'' @ repo_name
       @ ''/releases/tags/'' @ release_tag"

text \<open>Every \<^verbatim>\<open>except\<close> clause of the function logs and raises the same exception again.\<close>

definition get_expected_hashes_from_api ::
  "world \<Rightarrow> string \<Rightarrow> string \<Rightarrow> string \<Rightarrow> exn + (string \<times> string) list" where
  "get_expected_hashes_from_api w repo_owner repo_name release_tag =
     (case api_json w (api_url repo_owner repo_name release_tag) of
        Inl e \<Rightarrow> Inl e
      | Inr release_info \<Rightarrow>
          (case dict_get release_info ''assets'' (JArr []) of
             Inl e \<Rightarrow> Inl e
           | Inr assets_json \<Rightarrow>
               (case iterate assets_json of
                  Inl e \<Rightarrow> Inl e
                | Inr assets \<Rightarrow>
                    (case collect_hashes assets [] of
                       Inl e \<Rightarrow> Inl e
                     | Inr expected_hashes \<Rightarrow>
                         if expected_hashes = [] then
                           (case available_assets assets of
                              Inl e \<Rightarrow> Inl e
                            | Inr names \<Rightarrow> Inr expected_hashes)
                         else Inr expected_hashes))))"

section \<open>\<^verbatim>\<open>compute_sha256\<close> (lines 50-63)\<close>

text \<open>
  The loop feeds the file to the hash object in reads of 8192 bytes; the hash object
  digests the concatenation of everything it was fed. \<open>read_all rest fed\<close> is the data
  fed once the loop ends. A file that cannot be opened gives \<^verbatim>\<open>None\<close>.
\<close>

function read_all :: "byte list \<Rightarrow> byte list \<Rightarrow> byte list" where
  "read_all rest fed =
     (let chunk = take 8192 rest
      in if chunk = [] then fed else read_all (drop 8192 rest) (fed @ chunk))"
  by pat_completeness auto
termination
  by (relation "measure (\<lambda>(rest, fed). length rest)") auto

declare read_all.simps [simp del]

definition compute_sha256 :: "world \<Rightarrow> string \<Rightarrow> state \<Rightarrow> string option" where
  "compute_sha256 w file_path s =
     (case files s file_path of
        None \<Rightarrow> None
      | Some content \<Rightarrow> Some (lower (hexdigest w (read_all content []))))"

section \<open>\<^verbatim>\<open>download_chunk\<close> (lines 65-90)\<close>

text \<open>
  \<^verbatim>\<open>response.read(amt)\<close>: at most \<open>amt\<close> bytes of the segment at the head of the
  stream; the empty result only at the end of the body; an exception when the
  connection broke.
\<close>

fun read :: "nat \<Rightarrow> read_event list \<Rightarrow> (exn + byte list) \<times> read_event list" where
  "read amt [] = (Inr [], [])"
| "read amt (ReadError e # evs) = (Inl e, evs)"
| "read amt (Data seg # evs) =
     (if seg = [] then read amt evs
      else if length seg \<le> amt then (Inr seg, evs)
      else (Inr (take amt seg), Data (drop amt seg) # evs))"

text \<open>What is left to consume of a stream; every non-empty read makes it smaller.\<close>

fun pending :: "read_event list \<Rightarrow> nat" where
  "pending [] = 0"
| "pending (ReadError e # evs) = Suc (pending evs)"
| "pending (Data seg # evs) = Suc (length seg + pending evs)"

text \<open>
  The \<^verbatim>\<open>while True\<close> loop of lines 72-81, with \<^verbatim>\<open>chunk_size = 8192\<close>. It returns the
  exception that ended it, if any, and the state. The progress bar is not modelled.
\<close>

function download_loop ::
  "string \<Rightarrow> int \<Rightarrow> int \<Rightarrow> read_event list \<Rightarrow> state \<Rightarrow> exn option \<times> state" where
  "download_loop save_path start downloaded response s =
     (case read 8192 response of
        (Inl e, response') \<Rightarrow> (Some e, s)
      | (Inr chunk, response') \<Rightarrow>
          if chunk = [] then (None, s)
          else
            let downloaded' = downloaded + int (length chunk)
            in (case write_at save_path (start + downloaded' - int (length chunk)) chunk s of
                  Inl e \<Rightarrow> (Some e, s)
                | Inr s' \<Rightarrow> download_loop save_path start downloaded' response' s'))"
  by pat_completeness auto
termination
proof (relation "measure (\<lambda>(save_path, start, downloaded, response, s). pending response)")
  show "wf (measure (\<lambda>(save_path, start, downloaded, response, s). pending response))"
    by simp
next
  fix save_path :: string and start downloaded :: int and response :: "read_event list"
    and s :: state and x response' chunk downloaded' s'
  assume r: "(x, response') = read 8192 response" "x = Inr chunk" and c: "chunk \<noteq> []"
  have "\<And>amt evs ch evs'. read amt evs = (Inr ch, evs') \<Longrightarrow> ch \<noteq> []
          \<Longrightarrow> pending evs' < pending evs"
  proof -
    fix amt evs ch evs'
    show "read amt evs = (Inr ch, evs') \<Longrightarrow> ch \<noteq> [] \<Longrightarrow> pending evs' < pending evs"
      by (induction amt evs rule: read.induct) (auto split: if_splits)
  qed
  from this[of 8192 response chunk response'] r c
  have "pending response' < pending response" by simp
  then show "((save_path, start, downloaded', response', s'),
              (save_path, start, downloaded, response, s))
             \<in> measure (\<lambda>(save_path, start, downloaded, response, s). pending response)"
    by simp
qed

declare download_loop.simps [simp del]

text \<open>
  One ranged GET, then the loop. Each of the four \<^verbatim>\<open>except\<close> clauses logs the error
  with the range and returns normally, so the function hands back nothing but the state.
\<close>

definition download_chunk ::
  "world \<Rightarrow> string \<Rightarrow> string \<Rightarrow> int \<Rightarrow> int \<Rightarrow> state \<Rightarrow> state" where
  "download_chunk w url save_path start end s =
     (let s1 = s\<lparr>requests := requests s @ [(url, Some (start, end))]\<rparr>
      in case urlopen w url (Some (start, end)) of
           Raises e \<Rightarrow> s1\<lparr>log := log s1 @ [ErrorInRange start end e]\<rparr>
         | Response h response \<Rightarrow>
             (case download_loop save_path start 0 response s1 of
                (Some e, s2) \<Rightarrow> s2\<lparr>log := log s2 @ [ErrorInRange start end e]\<rparr>
              | (None, s2) \<Rightarrow> s2\<lparr>log := log s2 @ [CompletedRange start end]\<rparr>))"

section \<open>Range planning (\<^verbatim>\<open>download_file\<close>, lines 107-109)\<close>

text \<open>
  \<^verbatim>\<open>chunk_size = total_size // num_threads\<close> followed by the list comprehension over
  \<^verbatim>\<open>range(num_threads)\<close>. Python integers are unbounded, \<^verbatim>\<open>//\<close> is floor division (as
  \<open>div\<close> on \<open>int\<close>) and raises for a zero divisor; \<^verbatim>\<open>range(n)\<close> is \<open>[0..n - 1]\<close>, empty
  for \<open>n \<le> 0\<close>. A range is the inclusive pair \<open>(start, end)\<close>.
\<close>

definition ranges :: "int \<Rightarrow> int \<Rightarrow> exn + (int \<times> int) list" where
  "ranges total_size num_threads =
     (if num_threads = 0 then Inl ZeroDivisionError
      else let chunk_size = total_size div num_threads in
        Inr (map (\<lambda>i. (i * chunk_size,
                        if i < num_threads - 1 then (i + 1) * chunk_size - 1 else total_size - 1))
                 [0..num_threads - 1]))"

text \<open>The offsets an inclusive range names; empty when the end lies before the start.\<close>

definition range_set :: "int \<times> int \<Rightarrow> int set" where
  "range_set r = {fst r..snd r}"

section \<open>\<^verbatim>\<open>download_file\<close> (lines 92-145)\<close>

text \<open>
  The function is a \<^verbatim>\<open>try\<close> block whose four \<^verbatim>\<open>except\<close> clauses log and raise the same
  exception again, so the first exception of the body is the exception of the call. The
  body is split here along its stages; each returns the state it has reached, also when
  it raises.
\<close>

text \<open>\<^verbatim>\<open>int(response.getheader('Content-Length', 0))\<close>, line 95.\<close>

definition content_length :: "header \<Rightarrow> exn + int" where
  "content_length h =
     (case h of
        Absent \<Rightarrow> Inr 0
      | Numeric n \<Rightarrow> Inr n
      | Malformed \<Rightarrow> Inl (ValueError ''invalid literal for int()''))"

text \<open>Lines 94-97: one GET without a \<^verbatim>\<open>Range\<close> header, read for its size only.\<close>

definition discover_size :: "world \<Rightarrow> string \<Rightarrow> state \<Rightarrow> (exn + int) \<times> state" where
  "discover_size w url s =
     (let s1 = s\<lparr>requests := requests s @ [(url, None)]\<rparr>
      in case urlopen w url None of
           Raises e \<Rightarrow> (Inl e, s1)
         | Response h response \<Rightarrow>
             (case content_length h of
                Inl e \<Rightarrow> (Inl e, s1)
              | Inr total_size \<Rightarrow>
                  if total_size = 0
                  then (Inl (ValueError ''Could not determine file size''), s1)
                  else (Inr total_size, s1)))"

text \<open>Lines 100-102: the parent directory, then the file, cut to \<open>total_size\<close> bytes.\<close>

definition allocate :: "string \<Rightarrow> int \<Rightarrow> state \<Rightarrow> (exn + unit) \<times> state" where
  "allocate save_path total_size s =
     (case makedirs (dirname save_path) s of
        Inl e \<Rightarrow> (Inl e, s)
      | Inr s1 \<Rightarrow>
          (case open_wb save_path s1 of
             Inl e \<Rightarrow> (Inl e, s1)
           | Inr s2 \<Rightarrow>
               (case truncate save_path total_size s2 of
                  Inl e \<Rightarrow> (Inl e, s2)
                | Inr s3 \<Rightarrow> (Inr (), s3))))"

text \<open>
  Lines 107-121: the ranges, one \<^verbatim>\<open>download_chunk\<close> per range on a pool of
  \<open>num_threads\<close> workers, and the first \<^verbatim>\<open>print\<close>. The pool refuses a worker count below
  one. Every write of a fetcher happens under the one lock, so a run of the pool is an
  interleaving of the fetchers' writes; the model runs the fetchers one after the other
  in the order of submission. \<^verbatim>\<open>future.result()\<close> has nothing to raise, because
  \<^verbatim>\<open>download_chunk\<close> never raises.
\<close>

definition fetch_ranges ::
  "world \<Rightarrow> string \<Rightarrow> string \<Rightarrow> int \<Rightarrow> int \<Rightarrow> state \<Rightarrow> (exn + unit) \<times> state" where
  "fetch_ranges w url save_path total_size num_threads s =
     (case ranges total_size num_threads of
        Inl e \<Rightarrow> (Inl e, s)
      | Inr rs \<Rightarrow>
          if num_threads \<le> 0
          then (Inl (ValueError ''max_workers must be greater than 0''), s)
          else
            let s' = fold (\<lambda>(start, end). download_chunk w url save_path start end) rs s
            in (Inr (), s'\<lparr>log := log s' @ [FileDownloaded save_path]\<rparr>))"

text \<open>Lines 123-132: the digest check against the entry for the file's base name.\<close>

definition verify ::
  "world \<Rightarrow> string \<Rightarrow> (string \<times> string) list \<Rightarrow> state \<Rightarrow> (exn + unit) \<times> state" where
  "verify w save_path expected_hashes s =
     (let filename = basename save_path
      in case map_of expected_hashes filename of
           None \<Rightarrow> (Inl (NoExpectedHash filename (map fst expected_hashes)), s)
         | Some expected_hash \<Rightarrow>
             (case compute_sha256 w save_path s of
                None \<Rightarrow> (Inl (HashComputationFailed save_path), s)
              | Some computed_hash \<Rightarrow>
                  if computed_hash \<noteq> expected_hash
                  then (Inl (HashMismatch save_path expected_hash computed_hash), s)
                  else (Inr (), s\<lparr>log := log s @ [HashVerified filename computed_hash]\<rparr>)))"

text \<open>Lines 94-121 together: everything before the digest check.\<close>

definition download_stage ::
  "world \<Rightarrow> string \<Rightarrow> string \<Rightarrow> int \<Rightarrow> state \<Rightarrow> (exn + unit) \<times> state" where
  "download_stage w url save_path num_threads s =
     (case discover_size w url s of
        (Inl e, s1) \<Rightarrow> (Inl e, s1)
      | (Inr total_size, s1) \<Rightarrow>
          (case allocate save_path total_size s1 of
             (Inl e, s2) \<Rightarrow> (Inl e, s2)
           | (Inr u, s2) \<Rightarrow> fetch_ranges w url save_path total_size num_threads s2))"

definition download_file ::
  "world \<Rightarrow> string \<Rightarrow> string \<Rightarrow> (string \<times> string) list \<Rightarrow> int \<Rightarrow> state
     \<Rightarrow> (exn + unit) \<times> state" where
  "download_file w url save_path expected_hashes num_threads s =
     (case download_stage w url save_path num_threads s of
        (Inl e, s3) \<Rightarrow> (Inl e, s3)
      | (Inr u, s3) \<Rightarrow> verify w save_path expected_hashes s3)"

section \<open>The script (lines 147-160)\<close>

definition ctxusb_url :: string where
  "ctxusb_url =
     ''https://github.com/Reyher-VDI/Citrix-RPM-Repository/releases/download/TEST/ctxusb.rpm''"

definition icaclient_url :: string where
  "icaclient_url =
     ''https://github.com/Reyher-VDI/Citrix-RPM-Repository/releases/download/TEST/ICAClient.rpm''"

definition ctxusb_path :: string where
  "ctxusb_path = ''/temp/packages/ctxusb.rpm''"

definition icaclient_path :: string where
  "icaclient_path = ''/temp/packages/ICAClient.rpm''"

text \<open>
  Lines 156-157: \<^verbatim>\<open>os.path.exists\<close> holds for files and directories alike, and
  \<^verbatim>\<open>os.remove\<close> raises for a directory.
\<close>

definition remove_if_exists :: "string \<Rightarrow> state \<Rightarrow> exn + state" where
  "remove_if_exists rpm_file s =
     (if files s rpm_file \<noteq> None then Inr (s\<lparr>files := (files s)(rpm_file := None)\<rparr>)
      else if rpm_file \<in> dirs s then Inl IOError
      else Inr s)"

text \<open>
  The script has no handler of its own: an exception of any call ends it there. The
  placement of the files starts at line 162, after both calls of \<^verbatim>\<open>download_file\<close> have
  returned; \<open>PlacementStarted\<close> records that control got there.
\<close>

definition batch :: "world \<Rightarrow> state \<Rightarrow> (exn + unit) \<times> state" where
  "batch w s =
     (case get_expected_hashes_from_api w ''Reyher-VDI'' ''Citrix-RPM-Repository'' ''TEST'' of
        Inl e \<Rightarrow> (Inl e, s)
      | Inr expected_hashes \<Rightarrow>
          if expected_hashes = [] then (Inl HashFetchFailed, s)
          else
            (case remove_if_exists ctxusb_path s of
               Inl e \<Rightarrow> (Inl e, s)
             | Inr s1 \<Rightarrow>
                 (case remove_if_exists icaclient_path s1 of
                    Inl e \<Rightarrow> (Inl e, s1)
                  | Inr s2 \<Rightarrow>
                      (case download_file w ctxusb_url ctxusb_path expected_hashes 4 s2 of
                         (Inl e, s3) \<Rightarrow> (Inl e, s3)
                       | (Inr u, s3) \<Rightarrow>
                           (case download_file w icaclient_url icaclient_path
                                   expected_hashes 4 s3 of
                              (Inl e, s4) \<Rightarrow> (Inl e, s4)
                            | (Inr u, s4) \<Rightarrow>
                                (Inr (), s4\<lparr>log := log s4 @ [PlacementStarted]\<rparr>))))))"

section \<open>Properties of the range planner\<close>

lemma ranges_length: "ranges t n = Inr rs \<Longrightarrow> length rs = nat n"
  by (auto simp: ranges_def Let_def split: if_splits)

lemma ranges_nth:
  assumes "ranges t n = Inr rs" and "i < nat n"
  shows "rs ! i = (int i * (t div n),
                   if int i < n - 1 then (int i + 1) * (t div n) - 1 else t - 1)"
  using assms by (auto simp: ranges_def Let_def split: if_splits)

lemma ranges_defined: "n \<noteq> 0 \<Longrightarrow> \<exists>rs. ranges t n = Inr rs"
  by (simp add: ranges_def Let_def)

lemma chunk_mult_le: "0 < n \<Longrightarrow> k \<le> n \<Longrightarrow> 0 \<le> t \<Longrightarrow> k * (t div n) \<le> (t::int)"
proof -
  assume n: "0 < n" and k: "k \<le> n" and t: "0 \<le> t"
  have c: "0 \<le> t div n" using n t by (simp add: pos_imp_zdiv_nonneg_iff)
  have "k * (t div n) \<le> n * (t div n)" using k c by (rule mult_right_mono)
  also have "\<dots> \<le> t"
  proof -
    have "n * (t div n) + t mod n = t" by simp
    moreover have "0 \<le> t mod n" using n by simp
    ultimately show ?thesis by linarith
  qed
  finally show ?thesis .
qed

lemma ranges_disjoint:
  assumes rs: "ranges t n = Inr rs" and t: "0 \<le> t" and ij: "i < j" and j: "j < length rs"
  shows "range_set (rs ! i) \<inter> range_set (rs ! j) = {}"
proof -
  have len: "length rs = nat n" using rs by (rule ranges_length)
  have c: "0 \<le> t div n" using t len j by (simp add: pos_imp_zdiv_nonneg_iff)
  have i1: "int i < n - 1" using ij j len by linarith
  have "(int i + 1) * (t div n) \<le> int j * (t div n)"
    using ij c by (intro mult_right_mono) auto
  then show ?thesis
    using ranges_nth[OF rs, of i] ranges_nth[OF rs, of j] i1 ij j len
    by (auto simp: range_set_def)
qed

lemma ranges_union:
  assumes rs: "ranges t n = Inr rs" and t: "1 \<le> t" and n: "1 \<le> n"
  shows "(\<Union>r\<in>set rs. range_set r) = {0..<t}"
proof (intro set_eqI iffI)
  fix x
  have len: "length rs = nat n" using rs by (rule ranges_length)
  have c: "0 \<le> t div n" using t n by (simp add: pos_imp_zdiv_nonneg_iff)
  {
    assume "x \<in> (\<Union>r\<in>set rs. range_set r)"
    then obtain i where i: "i < length rs" and x: "x \<in> range_set (rs ! i)"
      by (auto simp: in_set_conv_nth)
    have lo: "0 \<le> int i * (t div n)" using c by simp
    show "x \<in> {0..<t}"
    proof (cases "int i < n - 1")
      case True
      have "(int i + 1) * (t div n) \<le> t"
        using True n t by (intro chunk_mult_le) auto
      then show ?thesis
        using x lo True ranges_nth[OF rs, of i] i len by (auto simp: range_set_def)
    next
      case False
      then show ?thesis
        using x lo ranges_nth[OF rs, of i] i len by (auto simp: range_set_def)
    qed
  }
  {
    assume x: "x \<in> {0..<t}"
    show "x \<in> (\<Union>r\<in>set rs. range_set r)"
    proof (cases "(n - 1) * (t div n) \<le> x")
      case True
      have "nat (n - 1) < length rs" using len n by simp
      moreover have "x \<in> range_set (rs ! nat (n - 1))"
        using ranges_nth[OF rs, of "nat (n - 1)"] n True x by (simp add: range_set_def)
      ultimately show ?thesis by (metis UN_I nth_mem)
    next
      case False
      then have cpos: "0 < t div n"
        using c x n by (cases "t div n = 0") auto
      define i where "i = x div (t div n)"
      have i0: "0 \<le> i" using x cpos by (simp add: i_def pos_imp_zdiv_nonneg_iff)
      have split: "i * (t div n) + x mod (t div n) = x"
        unfolding i_def by (rule div_mult_mod_eq)
      have "0 \<le> x mod (t div n)" and "x mod (t div n) < t div n" using cpos by simp_all
      with split have lo: "i * (t div n) \<le> x" and hi: "x < (i + 1) * (t div n)"
        by (simp_all add: algebra_simps)
      have "i * (t div n) < (n - 1) * (t div n)" using lo False by linarith
      then have i1: "i < n - 1" using cpos by (simp add: mult_less_cancel_right)
      have "nat i < length rs" using len i1 i0 by simp
      moreover have "x \<in> range_set (rs ! nat i)"
        using ranges_nth[OF rs, of "nat i"] i0 i1 lo hi by (simp add: range_set_def)
      ultimately show ?thesis by (metis UN_I nth_mem)
    qed
  }
qed

lemma ranges_last:
  assumes rs: "ranges t n = Inr rs" and n: "1 \<le> n"
  shows "snd (last rs) = t - 1"
proof -
  have len: "length rs = nat n" using rs by (rule ranges_length)
  then have "rs \<noteq> []" using n by auto
  then have "last rs = rs ! nat (n - 1)"
    using len n by (simp add: last_conv_nth nat_diff_distrib)
  then show ?thesis using ranges_nth[OF rs, of "nat (n - 1)"] n by simp
qed

text \<open>
  C3. For every \<open>total_size > 0\<close> and every worker count with
  \<open>1 \<le> num_threads \<le> total_size\<close> the range list of \<^verbatim>\<open>download_file\<close> has exactly
  \<open>num_threads\<close> entries; range \<open>i\<close> starts at \<open>i * (total_size div num_threads)\<close>; every
  range but the last has length \<open>total_size div num_threads\<close>; the last range ends at
  \<open>total_size - 1\<close>; the ranges are contiguous (each starts right after its predecessor,
  none is empty), pairwise disjoint, and their union is exactly \<open>[0, total_size)\<close>.
\<close>

theorem ranges_partition:
  assumes "0 < total_size" and "1 \<le> num_threads" and "num_threads \<le> total_size"
  shows "\<exists>rs. ranges total_size num_threads = Inr rs
      \<and> length rs = nat num_threads
      \<and> (\<forall>i < length rs. fst (rs ! i) = int i * (total_size div num_threads))
      \<and> (\<forall>i. i + 1 < length rs \<longrightarrow>
             snd (rs ! i) - fst (rs ! i) + 1 = total_size div num_threads)
      \<and> snd (last rs) = total_size - 1
      \<and> fst (rs ! 0) = 0
      \<and> (\<forall>i. i + 1 < length rs \<longrightarrow> fst (rs ! (i + 1)) = snd (rs ! i) + 1)
      \<and> (\<forall>i < length rs. fst (rs ! i) \<le> snd (rs ! i))
      \<and> (\<forall>i j. i < j \<and> j < length rs \<longrightarrow>
             range_set (rs ! i) \<inter> range_set (rs ! j) = {})
      \<and> (\<Union>r\<in>set rs. range_set r) = {0..<total_size}"
proof -
  from assms obtain rs where rs: "ranges total_size num_threads = Inr rs"
    using ranges_defined[of num_threads total_size] by auto
  have len: "length rs = nat num_threads" using rs by (rule ranges_length)
  have nth: "\<And>i. i < length rs \<Longrightarrow>
      rs ! i = (int i * (total_size div num_threads),
                if int i < num_threads - 1
                then (int i + 1) * (total_size div num_threads) - 1 else total_size - 1)"
    using ranges_nth[OF rs] len by simp
  have cpos: "1 \<le> total_size div num_threads"
  proof -
    have "0 < num_threads" using assms by simp
    then have "0 < total_size div num_threads"
      using assms(3) by (simp add: pos_imp_zdiv_pos_iff)
    then show ?thesis by simp
  qed
  have starts: "\<forall>i < length rs. fst (rs ! i) = int i * (total_size div num_threads)"
    using nth by simp
  have lens: "\<forall>i. i + 1 < length rs \<longrightarrow>
      snd (rs ! i) - fst (rs ! i) + 1 = total_size div num_threads"
    using nth len by (auto simp: algebra_simps)
  have first: "fst (rs ! 0) = 0" using nth[of 0] len assms by simp
  have contig: "\<forall>i. i + 1 < length rs \<longrightarrow> fst (rs ! (i + 1)) = snd (rs ! i) + 1"
    using nth len by (auto simp: algebra_simps)
  have nonempty: "\<forall>i < length rs. fst (rs ! i) \<le> snd (rs ! i)"
  proof (intro allI impI)
    fix i assume i: "i < length rs"
    show "fst (rs ! i) \<le> snd (rs ! i)"
    proof (cases "int i < num_threads - 1")
      case True
      then show ?thesis using nth[OF i] cpos by (simp add: algebra_simps)
    next
      case False
      have "int i * (total_size div num_threads) + 1 * (total_size div num_threads)
            \<le> total_size"
        using chunk_mult_le[of num_threads "int i + 1" total_size] i len assms
        by (simp add: algebra_simps)
      then show ?thesis using False nth[OF i] cpos by simp
    qed
  qed
  have disj: "\<forall>i j. i < j \<and> j < length rs \<longrightarrow>
      range_set (rs ! i) \<inter> range_set (rs ! j) = {}"
    using ranges_disjoint[OF rs] assms by simp
  have un: "(\<Union>r\<in>set rs. range_set r) = {0..<total_size}"
    using ranges_union[OF rs] assms by simp
  show ?thesis
    using rs len starts lens ranges_last[OF rs assms(2)] first contig nonempty disj un
    by blast
qed

theorem ranges_partition_witness:
  "(0::int) < 1000000 \<and> (1::int) \<le> 4 \<and> (4::int) \<le> 1000000
   \<and> ranges 1000000 4 = Inr [(0, 249999), (250000, 499999), (500000, 749999), (750000, 999999)]
   \<and> (\<exists>rs. ranges 1000000 4 = Inr rs \<and> length rs = 4
        \<and> snd (rs ! 0) - fst (rs ! 0) + 1 = 250000
        \<and> fst (rs ! 1) = snd (rs ! 0) + 1
        \<and> range_set (rs ! 0) \<inter> range_set (rs ! 1) = {}
        \<and> (\<Union>r\<in>set rs. range_set r) = {0..<1000000})"
proof -
  have h1: "(0::int) < 1000000" and h2: "(1::int) \<le> 4" and h3: "(4::int) \<le> 1000000"
    by simp_all
  have ev: "ranges 1000000 4
      = Inr [(0, 249999), (250000, 499999), (500000, 749999), (750000, 999999)]"
    by (simp add: ranges_def Let_def upto_rec1)
  from ranges_partition[OF h1 h2 h3] obtain rs where
    rs: "ranges 1000000 4 = Inr rs" and
    len: "length rs = nat 4" and
    starts: "\<forall>i < length rs. fst (rs ! i) = int i * (1000000 div 4)" and
    lens: "\<forall>i. i + 1 < length rs \<longrightarrow> snd (rs ! i) - fst (rs ! i) + 1 = 1000000 div 4" and
    lst: "snd (last rs) = 1000000 - 1" and
    first: "fst (rs ! 0) = 0" and
    contig: "\<forall>i. i + 1 < length rs \<longrightarrow> fst (rs ! (i + 1)) = snd (rs ! i) + 1" and
    nonempty: "\<forall>i < length rs. fst (rs ! i) \<le> snd (rs ! i)" and
    disj: "\<forall>i j. i < j \<and> j < length rs \<longrightarrow> range_set (rs ! i) \<inter> range_set (rs ! j) = {}" and
    un: "(\<Union>r\<in>set rs. range_set r) = {0..<1000000}"
    by (elim exE conjE)
  have a: "length rs = 4" using len by simp
  have b: "snd (rs ! 0) - fst (rs ! 0) + 1 = 250000" using a lens[rule_format, of 0] by simp
  have c: "fst (rs ! 1) = snd (rs ! 0) + 1" using a contig[rule_format, of 0] by simp
  have d: "range_set (rs ! 0) \<inter> range_set (rs ! 1) = {}"
    using a disj[rule_format, of 0 1] by simp
  have "ranges 1000000 4 = Inr rs \<and> length rs = 4
        \<and> snd (rs ! 0) - fst (rs ! 0) + 1 = 250000
        \<and> fst (rs ! 1) = snd (rs ! 0) + 1
        \<and> range_set (rs ! 0) \<inter> range_set (rs ! 1) = {}
        \<and> (\<Union>r\<in>set rs. range_set r) = {0..<1000000}"
    by (intro conjI rs a b c d un)
  then have e: "\<exists>rs. ranges 1000000 4 = Inr rs \<and> length rs = 4
        \<and> snd (rs ! 0) - fst (rs ! 0) + 1 = 250000
        \<and> fst (rs ! 1) = snd (rs ! 0) + 1
        \<and> range_set (rs ! 0) \<inter> range_set (rs ! 1) = {}
        \<and> (\<Union>r\<in>set rs. range_set r) = {0..<1000000}" ..
  show ?thesis by (intro conjI h1 h2 h3 ev e)
qed

text \<open>
  C10. For every \<open>total_size \<ge> 1\<close> and every \<open>num_threads \<ge> 1\<close>, also when there are
  more workers than bytes, the last range ends at \<open>total_size - 1\<close>, the ranges are pairwise
  disjoint as sets of offsets (a range whose end lies before its start is empty), and
  their union is \<open>[0, total_size)\<close>; with more workers than bytes every range but the
  last is empty.
\<close>

theorem ranges_cover_any_worker_count:
  assumes "1 \<le> total_size" and "1 \<le> num_threads"
  shows "\<exists>rs. ranges total_size num_threads = Inr rs
      \<and> snd (last rs) = total_size - 1
      \<and> (\<forall>i j. i < j \<and> j < length rs \<longrightarrow>
             range_set (rs ! i) \<inter> range_set (rs ! j) = {})
      \<and> (\<Union>r\<in>set rs. range_set r) = {0..<total_size}
      \<and> (total_size < num_threads \<longrightarrow>
             (\<forall>i. i + 1 < length rs \<longrightarrow> range_set (rs ! i) = {}))"
proof -
  from assms obtain rs where rs: "ranges total_size num_threads = Inr rs"
    using ranges_defined[of num_threads total_size] by auto
  have len: "length rs = nat num_threads" using rs by (rule ranges_length)
  have disj: "\<forall>i j. i < j \<and> j < length rs \<longrightarrow>
      range_set (rs ! i) \<inter> range_set (rs ! j) = {}"
    using ranges_disjoint[OF rs] assms by simp
  have un: "(\<Union>r\<in>set rs. range_set r) = {0..<total_size}"
    using ranges_union[OF rs assms] .
  have empty: "total_size < num_threads \<longrightarrow>
      (\<forall>i. i + 1 < length rs \<longrightarrow> range_set (rs ! i) = {})"
  proof (intro impI allI)
    fix i assume more: "total_size < num_threads" and i: "i + 1 < length rs"
    have c0: "total_size div num_threads = 0" using more assms by simp
    have i1: "int i < num_threads - 1" using i len by linarith
    have "i < nat num_threads" using i len by simp
    then show "range_set (rs ! i) = {}"
      using ranges_nth[OF rs, of i] c0 i1 by (simp add: range_set_def)
  qed
  show ?thesis using rs ranges_last[OF rs assms(2)] disj un empty by blast
qed

theorem ranges_cover_any_worker_count_witness:
  "(1::int) \<le> 3 \<and> (1::int) \<le> 5 \<and> (3::int) < 5
   \<and> ranges 3 5 = Inr [(0, - 1), (0, - 1), (0, - 1), (0, - 1), (0, 2)]
   \<and> (\<exists>rs. ranges 3 5 = Inr rs \<and> snd (last rs) = 2
        \<and> range_set (rs ! 0) \<inter> range_set (rs ! 4) = {}
        \<and> range_set (rs ! 0) = {}
        \<and> (\<Union>r\<in>set rs. range_set r) = {0..<3})"
proof -
  have h1: "(1::int) \<le> 3" and h2: "(1::int) \<le> 5" and h3: "(3::int) < 5" by simp_all
  have ev: "ranges 3 5 = Inr [(0, - 1), (0, - 1), (0, - 1), (0, - 1), (0, 2)]"
    by (simp add: ranges_def Let_def upto_rec1)
  from ranges_cover_any_worker_count[OF h1 h2] obtain rs where
    rs: "ranges 3 5 = Inr rs" and
    lst: "snd (last rs) = 3 - 1" and
    disj: "\<forall>i j. i < j \<and> j < length rs \<longrightarrow> range_set (rs ! i) \<inter> range_set (rs ! j) = {}" and
    un: "(\<Union>r\<in>set rs. range_set r) = {0..<3}" and
    empty: "3 < (5::int) \<longrightarrow> (\<forall>i. i + 1 < length rs \<longrightarrow> range_set (rs ! i) = {})"
    by (elim exE conjE)
  have len: "length rs = 5" using rs ev by auto
  have a: "snd (last rs) = 2" using lst by simp
  have b: "range_set (rs ! 0) \<inter> range_set (rs ! 4) = {}"
    using len disj[rule_format, of 0 4] by simp
  have c: "range_set (rs ! 0) = {}" using len empty[rule_format, OF h3, of 0] by simp
  have "ranges 3 5 = Inr rs \<and> snd (last rs) = 2
        \<and> range_set (rs ! 0) \<inter> range_set (rs ! 4) = {}
        \<and> range_set (rs ! 0) = {}
        \<and> (\<Union>r\<in>set rs. range_set r) = {0..<3}"
    by (intro conjI rs a b c un)
  then have e: "\<exists>rs. ranges 3 5 = Inr rs \<and> snd (last rs) = 2
        \<and> range_set (rs ! 0) \<inter> range_set (rs ! 4) = {}
        \<and> range_set (rs ! 0) = {}
        \<and> (\<Union>r\<in>set rs. range_set r) = {0..<3}" ..
  show ?thesis by (intro conjI h1 h2 h3 ev e)
qed

end
